theory Spec2Isabelle
  imports Complex_Main
begin

section \<open>Python values used by go1\_standalone.py\<close>

subsection \<open>Binary floating point (Python \<open>float\<close>, numpy \<open>float64\<close>)\<close>

text \<open>
  A finite double is \<open>Fl m e\<close>, standing for \<open>m * 2 ^ e\<close>. The canonical form has an odd
  mantissa, and zero is \<open>Fl 0 0\<close>. Arithmetic computes the exact result on integers and rounds
  it to 53 significant bits, to nearest with ties to the even mantissa, as IEEE 754 binary64
  does. The exponent range is not bounded: overflow to infinity and subnormal numbers are not
  modelled (the commands of this program stay far from both), nor is the sign of zero.
\<close>

datatype pyfloat = Fl int int

text \<open>The number of bits of a non-negative integer (\<open>int.bit_length\<close>).\<close>

function bit_length :: "int \<Rightarrow> nat" where
  "bit_length n = (if n \<le> 0 then 0 else Suc (bit_length (n div 2)))"
  by pat_completeness auto
termination
  by (relation "measure nat") auto

declare bit_length.simps [simp del]

function fl_norm :: "int \<Rightarrow> int \<Rightarrow> pyfloat" where
  "fl_norm m e = (if m = 0 then Fl 0 0 else if even m then fl_norm (m div 2) (e + 1) else Fl m e)"
  by pat_completeness auto
termination
  by (relation "measure (\<lambda>(m, e). nat \<bar>m\<bar>)") auto

declare fl_norm.simps [simp del]

definition fl_round :: "int \<Rightarrow> int \<Rightarrow> pyfloat" where
  "fl_round m e =
     (let n = bit_length \<bar>m\<bar> in
      if n \<le> 53 then fl_norm m e
      else
        let s = n - 53;
            q = m div 2 ^ s;
            r = m mod 2 ^ s;
            h = 2 ^ (s - 1);
            q' = (if r < h then q else if h < r then q + 1 else if even q then q else q + 1)
        in fl_norm q' (e + int s))"

fun fl_add :: "pyfloat \<Rightarrow> pyfloat \<Rightarrow> pyfloat" where
  "fl_add (Fl m1 e1) (Fl m2 e2) =
     (let e = min e1 e2 in fl_round (m1 * 2 ^ nat (e1 - e) + m2 * 2 ^ nat (e2 - e)) e)"

fun fl_sub :: "pyfloat \<Rightarrow> pyfloat \<Rightarrow> pyfloat" where
  "fl_sub (Fl m1 e1) (Fl m2 e2) =
     (let e = min e1 e2 in fl_round (m1 * 2 ^ nat (e1 - e) - m2 * 2 ^ nat (e2 - e)) e)"

fun fl_neg :: "pyfloat \<Rightarrow> pyfloat" where
  "fl_neg (Fl m e) = Fl (- m) e"

fun fl_of_int :: "int \<Rightarrow> pyfloat" where
  "fl_of_int n = fl_round n 0"

text \<open>The value of a float as a rational number.\<close>

fun fl_val :: "pyfloat \<Rightarrow> rat" where
  "fl_val (Fl m e) = of_int m * 2 powi e"

text \<open>
  The canonical representation of a double: zero, or an odd mantissa of at most 53 bits.
  Every result of the arithmetic above is canonical.
\<close>

fun fl_canonical :: "pyfloat \<Rightarrow> bool" where
  "fl_canonical (Fl m e) = (if m = 0 then e = 0 else odd m \<and> bit_length \<bar>m\<bar> \<le> 53)"

text \<open>
  The sum of two doubles is exact in float64 when the addition rounds nothing away: the
  double it returns has the value of the exact sum.
\<close>

definition fl_exact_add :: "pyfloat \<Rightarrow> pyfloat \<Rightarrow> bool" where
  "fl_exact_add x y = (fl_val (fl_add x y) = fl_val x + fl_val y)"

text \<open>
  The float literals of the source. \<open>1.8\<close> is the double nearest to \<open>9/5\<close>, which is
  \<open>8106479329266893 / 2 ^ 52\<close>.
\<close>

definition f0_0 :: pyfloat where "f0_0 = Fl 0 0"
definition f1_0 :: pyfloat where "f1_0 = Fl 1 0"
definition f1_8 :: pyfloat where "f1_8 = Fl 8106479329266893 (- 52)"

subsection \<open>Dynamically typed values\<close>

datatype pyval = PyInt int | PyBool bool | PyFloat pyfloat

text \<open>\<open>v is False\<close>: identity with the singleton \<open>False\<close>; the integer \<open>0\<close> is another object.\<close>

fun py_is_False :: "pyval \<Rightarrow> bool" where
  "py_is_False (PyBool b) = (\<not> b)"
| "py_is_False _ = False"

text \<open>\<open>v == 0\<close>: numeric equality, across \<open>int\<close>, \<open>bool\<close> and \<open>float\<close>.\<close>

fun py_eq_zero :: "pyval \<Rightarrow> bool" where
  "py_eq_zero (PyInt n) = (n = 0)"
| "py_eq_zero (PyBool b) = (\<not> b)"
| "py_eq_zero (PyFloat (Fl m e)) = (m = 0)"

text \<open>The conversion \<open>np.array\<close> applies to the elements of a list that holds a float.\<close>

fun as_float :: "pyval \<Rightarrow> pyfloat" where
  "as_float (PyFloat x) = x"
| "as_float (PyInt n) = fl_of_int n"
| "as_float (PyBool b) = (if b then f1_0 else f0_0)"

datatype exc =
    FileNotFoundError | KeyError string | TypeError | ValueError | IndexError
  | AttributeError | JSONDecodeError | OSError

text \<open>
  \<open>xs op np.array(v)\<close> for a list \<open>xs\<close>: the list has no numeric slots, so the operator of
  the array runs, elementwise on \<open>float64\<close> with numpy's broadcasting of one-dimensional
  shapes (equal lengths, or one of them 1), and the result is an array of \<open>float64\<close>.
\<close>

definition np_binop ::
  "(pyfloat \<Rightarrow> pyfloat \<Rightarrow> pyfloat) \<Rightarrow> pyval list \<Rightarrow> pyfloat list \<Rightarrow> exc + pyval list" where
  "np_binop f xs v =
     (if length xs = length v then Inr (map PyFloat (map2 f (map as_float xs) v))
      else if length xs = 1 then Inr (map (\<lambda>y. PyFloat (f (as_float (hd xs)) y)) v)
      else if length v = 1 then Inr (map (\<lambda>x. PyFloat (f (as_float x) (hd v))) xs)
      else Inl ValueError)"

text \<open>\<open>lst[0:3] op= np.array(v)\<close>: read the slice, combine, store the result in the slice.\<close>

definition slice3_update ::
  "(pyfloat \<Rightarrow> pyfloat \<Rightarrow> pyfloat) \<Rightarrow> pyval list \<Rightarrow> pyfloat list \<Rightarrow> exc + pyval list" where
  "slice3_update f lst v =
     (case np_binop f (take 3 lst) v of
        Inl e \<Rightarrow> Inl e
      | Inr r \<Rightarrow> Inr (r @ drop 3 lst))"

section \<open>Go1Runner\<close>

datatype KeyboardEventType = KEY_PRESS | KEY_RELEASE | KEY_REPEAT | CHAR

record event =
  ev_type :: KeyboardEventType
  input_name :: string

text \<open>
  The attributes of a runner that the callbacks read and write. \<open>path_follow\<close> is \<open>None\<close>
  until \<open>setup\<close> has created the attribute.
\<close>

record Go1Runner =
  enter_toggled :: pyval
  base_command :: "pyval list"
  event_flag :: bool
  path_follow :: "bool option"

definition input_keyboard_mapping :: "(string \<times> pyfloat list) list" where
  "input_keyboard_mapping =
     [(''NUMPAD_8'', [f1_8, f0_0, f0_0]),
      (''UP'', [f1_8, f0_0, f0_0]),
      (''NUMPAD_2'', [fl_neg f1_8, f0_0, f0_0]),
      (''DOWN'', [fl_neg f1_8, f0_0, f0_0]),
      (''NUMPAD_6'', [f0_0, fl_neg f1_8, f0_0]),
      (''RIGHT'', [f0_0, fl_neg f1_8, f0_0]),
      (''NUMPAD_4'', [f0_0, f1_8, f0_0]),
      (''LEFT'', [f0_0, f1_8, f0_0]),
      (''NUMPAD_7'', [f0_0, f0_0, f1_0]),
      (''N'', [f0_0, f0_0, f1_0]),
      (''NUMPAD_9'', [f0_0, f0_0, fl_neg f1_0]),
      (''M'', [f0_0, f0_0, fl_neg f1_0])]"

text \<open>The assignments at the end of \<open>__init__\<close>.\<close>

definition Go1Runner_init :: Go1Runner where
  "Go1Runner_init =
     \<lparr>enter_toggled = PyInt 0,
      base_command = [PyFloat f0_0, PyFloat f0_0, PyFloat f0_0, PyInt 0],
      event_flag = False,
      path_follow = None\<rparr>"

text \<open>\<open>setup\<close>: only the attribute \<open>_path_follow\<close> belongs to the state modelled here.\<close>

definition Go1Runner_setup :: "Go1Runner \<Rightarrow> 'w option \<Rightarrow> Go1Runner" where
  "Go1Runner_setup self way_points =
     (if way_points = None then self\<lparr>path_follow := Some False\<rparr>
      else self\<lparr>path_follow := Some True\<rparr>)"

text \<open>
  The calls a physics step makes on the robot, which is outside this file; they are
  recorded in order.
\<close>

datatype robot_call = SwitchMode | Advance pyfloat "pyval list" bool

definition on_physics_step ::
  "Go1Runner \<Rightarrow> pyfloat \<Rightarrow> exc + (robot_call list \<times> Go1Runner)" where
  "on_physics_step self step_size =
     (let calls = (if event_flag self then [SwitchMode] else []);
          self1 = (if event_flag self then self\<lparr>event_flag := False\<rparr> else self)
      in case path_follow self1 of
           None \<Rightarrow> Inl AttributeError
         | Some pf \<Rightarrow> Inr (calls @ [Advance step_size (base_command self1) pf], self1))"

text \<open>The branch for ENTER inside KEY\_PRESS.\<close>

definition press_enter :: "Go1Runner \<Rightarrow> string \<Rightarrow> exc + Go1Runner" where
  "press_enter self name =
     (if name = ''ENTER'' \<and> py_is_False (enter_toggled self) then
        (let self1 = self\<lparr>enter_toggled := PyBool True\<rparr> in
         if length (base_command self1) \<le> 3 then Inl IndexError
         else if py_eq_zero (base_command self1 ! 3)
           then Inr (self1\<lparr>base_command := (base_command self1)[3 := PyInt 1], event_flag := True\<rparr>)
           else Inr (self1\<lparr>base_command := (base_command self1)[3 := PyInt 0], event_flag := True\<rparr>))
      else Inr self)"

definition sub_keyboard_event :: "Go1Runner \<Rightarrow> event \<Rightarrow> exc + (bool \<times> Go1Runner)" where
  "sub_keyboard_event self ev =
     (let self0 = self\<lparr>event_flag := False\<rparr> in
      if ev_type ev = KEY_PRESS then
        (case (case map_of input_keyboard_mapping (input_name ev) of
                 Some v \<Rightarrow>
                   (case slice3_update fl_add (base_command self0) v of
                      Inl e \<Rightarrow> Inl e
                    | Inr bc \<Rightarrow> Inr (self0\<lparr>base_command := bc, event_flag := True\<rparr>))
               | None \<Rightarrow> Inr self0) of
           Inl e \<Rightarrow> Inl e
         | Inr self1 \<Rightarrow>
             (case press_enter self1 (input_name ev) of
                Inl e \<Rightarrow> Inl e
              | Inr self2 \<Rightarrow> Inr (True, self2)))
      else if ev_type ev = KEY_RELEASE then
        (case (case map_of input_keyboard_mapping (input_name ev) of
                 Some v \<Rightarrow>
                   (case slice3_update fl_sub (base_command self0) v of
                      Inl e \<Rightarrow> Inl e
                    | Inr bc \<Rightarrow> Inr (self0\<lparr>base_command := bc, event_flag := True\<rparr>))
               | None \<Rightarrow> Inr self0) of
           Inl e \<Rightarrow> Inl e
         | Inr self1 \<Rightarrow>
             Inr (True, if input_name ev = ''ENTER'' then self1\<lparr>enter_toggled := PyBool False\<rparr>
                        else self1))
      else Inr (True, self0))"

text \<open>A sequence of keyboard events, delivered one after the other.\<close>

fun run_events :: "Go1Runner \<Rightarrow> event list \<Rightarrow> exc + Go1Runner" where
  "run_events self [] = Inr self"
| "run_events self (ev # evs) =
     (case sub_keyboard_event self ev of
        Inl e \<Rightarrow> Inl e
      | Inr (_, self1) \<Rightarrow> run_events self1 evs)"

text \<open>
  The two callbacks the simulator invokes once \<open>setup\<close> has registered them, and a run of
  them in the order they arrive.
\<close>

datatype callback = Keyboard event | Physics pyfloat

fun run_callbacks :: "Go1Runner \<Rightarrow> callback list \<Rightarrow> exc + Go1Runner" where
  "run_callbacks self [] = Inr self"
| "run_callbacks self (Keyboard ev # cbs) =
     (case sub_keyboard_event self ev of
        Inl e \<Rightarrow> Inl e
      | Inr (_, self1) \<Rightarrow> run_callbacks self1 cbs)"
| "run_callbacks self (Physics step_size # cbs) =
     (case on_physics_step self step_size of
        Inl e \<Rightarrow> Inl e
      | Inr (_, self1) \<Rightarrow> run_callbacks self1 cbs)"

text \<open>
  An element of the command and a component of a key's vector whose sum needs no rounding.
\<close>

fun exact_press :: "pyval \<Rightarrow> pyfloat \<Rightarrow> bool" where
  "exact_press (PyFloat x) y = (fl_canonical x \<and> fl_exact_add x y)"
| "exact_press _ y = False"

abbreviation press :: "string \<Rightarrow> event" where
  "press k \<equiv> \<lparr>ev_type = KEY_PRESS, input_name = k\<rparr>"

abbreviation release :: "string \<Rightarrow> event" where
  "release k \<equiv> \<lparr>ev_type = KEY_RELEASE, input_name = k\<rparr>"

section \<open>main\<close>

text \<open>
  What \<open>json.load\<close> returns: the Python value of a JSON document. A dictionary is the list
  of its items, with distinct keys.
\<close>

datatype pyjson =
    JNone | JBool bool | JInt int | JFloat pyfloat | JStr string
  | JList "pyjson list" | JDict "(string \<times> pyjson) list"

text \<open>
  \<open>np.array([a, b, c])\<close> keeps the three values in order. The element type numpy chooses
  is not modelled, nor what it does with values that are sequences themselves; the
  properties below are about numbers.
\<close>

datatype ndarray = NdArray "pyjson list"

text \<open>
  A waypoint record of the waypoint file: a dictionary with numbers under the keys
  \<open>x\<close>, \<open>y\<close> and \<open>rad\<close>.
\<close>

fun is_number :: "pyjson \<Rightarrow> bool" where
  "is_number (JInt n) = True"
| "is_number (JFloat x) = True"
| "is_number _ = False"

definition is_waypoint_record :: "(string \<times> pyjson) list \<Rightarrow> bool" where
  "is_waypoint_record d =
     (case (map_of d ''x'', map_of d ''y'', map_of d ''rad'') of
        (Some x, Some y, Some rad) \<Rightarrow> is_number x \<and> is_number y \<and> is_number rad
      | _ \<Rightarrow> False)"

text \<open>\<open>w[key]\<close> for a string key.\<close>

fun getitem_str :: "pyjson \<Rightarrow> string \<Rightarrow> exc + pyjson" where
  "getitem_str (JDict d) key = (case map_of d key of None \<Rightarrow> Inl (KeyError key) | Some v \<Rightarrow> Inr v)"
| "getitem_str _ key = Inl TypeError"

text \<open>\<open>for waypoint in waypoint_data\<close>: the values the iteration yields.\<close>

fun py_iter :: "pyjson \<Rightarrow> exc + pyjson list" where
  "py_iter (JList xs) = Inr xs"
| "py_iter (JDict d) = Inr (map (\<lambda>kv. JStr (fst kv)) d)"
| "py_iter (JStr s) = Inr (map (\<lambda>c. JStr [c]) s)"
| "py_iter _ = Inl TypeError"

text \<open>The expression appended in the loop body; the subscripts are evaluated left to right.\<close>

definition waypoint_array :: "pyjson \<Rightarrow> exc + ndarray" where
  "waypoint_array waypoint =
     (case getitem_str waypoint ''x'' of
        Inl e \<Rightarrow> Inl e
      | Inr x \<Rightarrow>
          (case getitem_str waypoint ''y'' of
             Inl e \<Rightarrow> Inl e
           | Inr y \<Rightarrow>
               (case getitem_str waypoint ''rad'' of
                  Inl e \<Rightarrow> Inl e
                | Inr rad \<Rightarrow> Inr (NdArray [x, y, rad]))))"

text \<open>The loop, with \<open>waypoint_pose\<close> as accumulator.\<close>

fun append_waypoints :: "ndarray list \<Rightarrow> pyjson list \<Rightarrow> exc + ndarray list" where
  "append_waypoints waypoint_pose [] = Inr waypoint_pose"
| "append_waypoints waypoint_pose (waypoint # rest) =
     (case waypoint_array waypoint of
        Inl e \<Rightarrow> Inl e
      | Inr a \<Rightarrow> append_waypoints (waypoint_pose @ [a]) rest)"

text \<open>
  The file system as \<open>main\<close> sees it: for a path, \<open>open\<close> raises, or it succeeds and
  \<open>json.load\<close> raises or returns a value.
\<close>

type_synonym filesystem = "string \<Rightarrow> exc + (exc + pyjson)"

text \<open>
  What \<open>main\<close> does to the world outside, in order. The constructor and \<open>setup\<close> carry
  the \<open>way_points\<close> argument; the two time steps are constants and left out. \<open>Run\<close> is
  \<open>runner.run()\<close>, the simulation loop, which ends when the application stops running.
\<close>

datatype action =
    Print string | AppClose | AppUpdate
  | NewGo1Runner "ndarray list option" | Setup "ndarray list option"
  | WorldReset | Run

text \<open>The body of the \<open>try\<close> statement after the \<open>print\<close>.\<close>

definition load_waypoints :: "filesystem \<Rightarrow> string \<Rightarrow> exc + ndarray list" where
  "load_waypoints fs path =
     (case fs path of
        Inl e \<Rightarrow> Inl e
      | Inr (Inl e) \<Rightarrow> Inl e
      | Inr (Inr waypoint_data) \<Rightarrow>
          (case py_iter waypoint_data of
             Inl e \<Rightarrow> Inl e
           | Inr ws \<Rightarrow> append_waypoints [] ws))"

text \<open>
  \<open>main\<close>: \<open>waypoint\<close> is \<open>args.waypoint\<close> (\<open>None\<close> without the option). The result is the
  actions performed and the exception that left \<open>main\<close>, if one did.
\<close>

definition main :: "string option \<Rightarrow> filesystem \<Rightarrow> action list \<times> exc option" where
  "main waypoint fs =
     (if waypoint \<noteq> None \<and> waypoint \<noteq> Some [] then
        (let path = the waypoint in
         case load_waypoints fs path of
           Inl e \<Rightarrow>
             (if e = FileNotFoundError
              then ([Print path, Print ''error file not found, ending'', AppClose], None)
              else ([Print path], Some e))
         | Inr waypoint_pose \<Rightarrow>
             ([Print path, NewGo1Runner (Some waypoint_pose), AppUpdate,
               Setup (Some waypoint_pose), WorldReset, WorldReset, Run, AppClose], None))
      else
        ([NewGo1Runner None, AppUpdate, Setup None, WorldReset, WorldReset, Run, AppClose], None))"

section \<open>Properties of the floating-point operations\<close>

lemma bit_length_0 [simp]: "bit_length 0 = 0"
  by (simp add: bit_length.simps)

lemma bit_length_double: "0 < n \<Longrightarrow> bit_length (2 * n) = Suc (bit_length n)"
  by (subst bit_length.simps) simp

lemma bit_length_shift: "0 < n \<Longrightarrow> bit_length (n * 2 ^ k) = bit_length n + k"
proof (induction k)
  case 0
  then show ?case by simp
next
  case (Suc k)
  have pos: "0 < n * 2 ^ k" using Suc.prems by simp
  have "bit_length (n * 2 ^ Suc k) = bit_length (2 * (n * 2 ^ k))"
    by (simp add: mult.commute mult.left_commute)
  also have "\<dots> = Suc (bit_length (n * 2 ^ k))" using pos by (rule bit_length_double)
  finally show ?case using Suc by simp
qed

lemma fl_norm_0 [simp]: "fl_norm 0 e = Fl 0 0"
  by (simp add: fl_norm.simps)

lemma fl_norm_odd: "odd m \<Longrightarrow> fl_norm m e = Fl m e"
  by (subst fl_norm.simps) auto

lemma fl_norm_double: "fl_norm (2 * m) e = fl_norm m (e + 1)"
  by (subst fl_norm.simps) simp

lemma fl_norm_shift: "fl_norm (m * 2 ^ k) e = fl_norm m (e + int k)"
proof (induction k arbitrary: e)
  case 0
  then show ?case by simp
next
  case (Suc k)
  have "fl_norm (m * 2 ^ Suc k) e = fl_norm (2 * (m * 2 ^ k)) e" by (simp add: mult.commute mult.left_commute)
  also have "\<dots> = fl_norm (m * 2 ^ k) (e + 1)" by (rule fl_norm_double)
  also have "\<dots> = fl_norm m (e + 1 + int k)" by (rule Suc.IH)
  finally show ?case by (simp add: add.commute add.left_commute)
qed

lemma fl_round_shift:
  assumes "bit_length \<bar>m\<bar> \<le> 53"
  shows "fl_round (m * 2 ^ k) e = fl_norm m (e + int k)"
proof (cases "m = 0")
  case True
  then show ?thesis by (simp add: fl_round_def)
next
  case False
  then have pos: "0 < \<bar>m\<bar>" by simp
  have abs: "\<bar>m * 2 ^ k\<bar> = \<bar>m\<bar> * 2 ^ k"
    by (simp add: abs_mult)
  have bl: "bit_length \<bar>m * 2 ^ k\<bar> = bit_length \<bar>m\<bar> + k"
    unfolding abs using pos by (rule bit_length_shift)
  show ?thesis
  proof (cases "bit_length \<bar>m\<bar> + k \<le> 53")
    case True
    then show ?thesis by (simp add: fl_round_def bl fl_norm_shift)
  next
    case False
    define s where "s = bit_length \<bar>m\<bar> + k - 53"
    have s: "0 < s" "s \<le> k" using False assms by (auto simp: s_def)
    have split: "m * 2 ^ k = (m * 2 ^ (k - s)) * 2 ^ s"
      using s by (simp add: mult.assoc flip: power_add)
    have q: "(m * 2 ^ k) div 2 ^ s = m * 2 ^ (k - s)"
      by (subst split) simp
    have r: "(m * 2 ^ k) mod 2 ^ s = 0"
      by (subst split) simp
    have h: "(0::int) < 2 ^ (s - 1)" by simp
    have "fl_round (m * 2 ^ k) e = fl_norm (m * 2 ^ (k - s)) (e + int s)"
      using False h by (simp add: fl_round_def bl Let_def q r flip: s_def)
    also have "\<dots> = fl_norm m (e + int s + int (k - s))" by (rule fl_norm_shift)
    also have "\<dots> = fl_norm m (e + int k)" using s by simp
    finally show ?thesis .
  qed
qed

lemma fl_val_norm: "fl_val (fl_norm m e) = of_int m * 2 powi e"
proof (induction m e rule: fl_norm.induct)
  case (1 m e)
  show ?case
  proof (cases "m = 0")
    case True
    then show ?thesis by simp
  next
    case nz: False
    show ?thesis
    proof (cases "even m")
      case True
      then obtain j where j: "m = 2 * j" by (elim evenE)
      have "fl_val (fl_norm m e) = fl_val (fl_norm (m div 2) (e + 1))"
        using nz True by (subst fl_norm.simps) simp
      also have "\<dots> = of_int (m div 2) * 2 powi (e + 1)" using 1 nz True by simp
      also have "\<dots> = of_int m * 2 powi e"
        by (simp add: j power_int_add)
      finally show ?thesis .
    next
      case False
      then show ?thesis by (simp add: fl_norm_odd)
    qed
  qed
qed


lemma pow2_align:
  assumes "e \<le> e1"
  shows "(2::rat) ^ nat (e1 - e) * 2 powi e = 2 powi e1"
proof -
  have "(2::rat) ^ nat (e1 - e) = 2 powi (e1 - e)"
    using assms by (simp add: power_int_def)
  then show ?thesis by (simp flip: power_int_add)
qed

lemma pow2_align':
  assumes "e \<le> e1"
  shows "2 powi e * (2::rat) ^ nat (e1 - e) = 2 powi e1"
  by (subst mult.commute) (rule pow2_align [OF assms])

lemma aligned_sum_val:
  assumes "e = min e1 e2"
  shows "of_int (m1 * 2 ^ nat (e1 - e) + m2 * 2 ^ nat (e2 - e)) * (2::rat) powi e
         = of_int m1 * 2 powi e1 + of_int m2 * 2 powi e2"
proof -
  have le: "e \<le> e1" "e \<le> e2" using assms by auto
  have a: "2 powi e * (2::rat) ^ nat (e1 - e) = 2 powi e1"
    using le(1) by (rule pow2_align')
  have b: "2 powi e * (2::rat) ^ nat (e2 - e) = 2 powi e2"
    using le(2) by (rule pow2_align')
  show ?thesis by (simp add: algebra_simps a b)
qed

lemma aligned_diff_val:
  assumes "e = min e1 e2"
  shows "of_int (m1 * 2 ^ nat (e1 - e) - m2 * 2 ^ nat (e2 - e)) * (2::rat) powi e
         = of_int m1 * 2 powi e1 - of_int m2 * 2 powi e2"
proof -
  have le: "e \<le> e1" "e \<le> e2" using assms by auto
  have a: "2 powi e * (2::rat) ^ nat (e1 - e) = 2 powi e1"
    using le(1) by (rule pow2_align')
  have b: "2 powi e * (2::rat) ^ nat (e2 - e) = 2 powi e2"
    using le(2) by (rule pow2_align')
  show ?thesis by (simp add: algebra_simps a b)
qed

lemma fl_round_unique:
  assumes c: "fl_canonical (Fl m e)"
    and v: "of_int D * (2::rat) powi a = of_int m * 2 powi e"
  shows "fl_round D a = Fl m e"
proof (cases "m = 0")
  case True
  with v have "D = 0" by simp
  with True c show ?thesis by (simp add: fl_round_def)
next
  case False
  with c have odd: "odd m" and bl: "bit_length \<bar>m\<bar> \<le> 53" by auto
  have ae: "a \<le> e"
  proof (rule ccontr)
    assume "\<not> a \<le> e"
    then have lt: "e \<le> a" by simp
    have "of_int D * ((2::rat) ^ nat (a - e) * 2 powi e) = of_int m * 2 powi e"
      using v by (simp only: pow2_align [OF lt])
    then have "(of_int (D * 2 ^ nat (a - e)) :: rat) = of_int m" by simp
    then have "m = D * 2 ^ nat (a - e)" by (simp only: of_int_eq_iff)
    moreover have "0 < nat (a - e)" using \<open>\<not> a \<le> e\<close> by simp
    ultimately have "even m" by simp
    with odd show False by simp
  qed
  have "of_int D * (2::rat) powi a = of_int m * ((2::rat) ^ nat (e - a) * 2 powi a)"
    using v by (simp only: pow2_align [OF ae])
  then have "(of_int D :: rat) = of_int (m * 2 ^ nat (e - a))" by simp
  then have D: "D = m * 2 ^ nat (e - a)" by (simp only: of_int_eq_iff)
  have "fl_round D a = fl_norm m (a + int (nat (e - a)))"
    unfolding D using bl by (rule fl_round_shift)
  also have "\<dots> = fl_norm m e" using ae by simp
  also have "\<dots> = Fl m e" using odd by (rule fl_norm_odd)
  finally show ?thesis .
qed

lemma fl_add_sub_exact:
  assumes c: "fl_canonical x" and ex: "fl_exact_add x v"
  shows "fl_sub (fl_add x v) v = x"
proof -
  obtain m1 e1 where x: "x = Fl m1 e1" by (cases x)
  obtain m2 e2 where v: "v = Fl m2 e2" by (cases v)
  obtain M' e' where a: "fl_add x v = Fl M' e'" by (cases "fl_add x v")
  from ex have "fl_val (Fl M' e') = fl_val x + fl_val v"
    by (simp only: fl_exact_add_def a)
  then have val: "of_int M' * (2::rat) powi e' = of_int m1 * 2 powi e1 + of_int m2 * 2 powi e2"
    by (simp add: x v)
  define e'' where "e'' = min e' e2"
  define D where "D = M' * 2 ^ nat (e' - e'') - m2 * 2 ^ nat (e2 - e'')"
  have "of_int D * (2::rat) powi e'' = of_int M' * 2 powi e' - of_int m2 * 2 powi e2"
    unfolding D_def using e''_def by (rule aligned_diff_val)
  also have "\<dots> = of_int m1 * 2 powi e1" by (simp add: val)
  finally have r: "fl_round D e'' = Fl m1 e1"
    using c unfolding x by (intro fl_round_unique)
  have "fl_sub (fl_add x v) v = fl_sub (Fl M' e') (Fl m2 e2)"
    by (simp only: a) (simp only: v)
  also have "\<dots> = fl_round D e''"
    by (simp add: Let_def D_def e''_def)
  finally show ?thesis by (simp only: r x)
qed

section \<open>Properties of the keyboard callback\<close>

lemma mapping_vector_length:
  "map_of input_keyboard_mapping k = Some v \<Longrightarrow> length v = 3"
  by (auto simp: input_keyboard_mapping_def split: if_splits)

lemma enter_not_mapped: "map_of input_keyboard_mapping ''ENTER'' = None"
  by (simp add: input_keyboard_mapping_def)

lemma slice3_update_ok:
  "3 \<le> length lst \<Longrightarrow> length v = 3 \<Longrightarrow>
   slice3_update f lst v = Inr (map PyFloat (map2 f (map as_float (take 3 lst)) v) @ drop 3 lst)"
  by (simp add: slice3_update_def np_binop_def)

lemma press_mapped:
  assumes "map_of input_keyboard_mapping k = Some v" and "3 \<le> length (base_command s)"
  shows "sub_keyboard_event s (press k) =
    Inr (True, s\<lparr>base_command := map PyFloat (map2 fl_add (map as_float (take 3 (base_command s))) v) @ drop 3 (base_command s), event_flag := True\<rparr>)"
proof -
  have k: "k \<noteq> ''ENTER''" using assms(1) enter_not_mapped by auto
  have l: "length v = 3" using assms(1) by (rule mapping_vector_length)
  show ?thesis using assms k
    by (simp add: sub_keyboard_event_def Let_def slice3_update_ok [OF _ l] press_enter_def)
qed

lemma release_mapped:
  assumes "map_of input_keyboard_mapping k = Some v" and "3 \<le> length (base_command s)"
  shows "sub_keyboard_event s (release k) =
    Inr (True, s\<lparr>base_command := map PyFloat (map2 fl_sub (map as_float (take 3 (base_command s))) v) @ drop 3 (base_command s), event_flag := True\<rparr>)"
proof -
  have k: "k \<noteq> ''ENTER''" using assms(1) enter_not_mapped by auto
  have l: "length v = 3" using assms(1) by (rule mapping_vector_length)
  show ?thesis using assms k
    by (simp add: sub_keyboard_event_def Let_def slice3_update_ok [OF _ l])
qed

lemma unmapped_event:
  assumes "(map_of input_keyboard_mapping (input_name ev) = None \<and> input_name ev \<noteq> ''ENTER'')
           \<or> (ev_type ev \<noteq> KEY_PRESS \<and> ev_type ev \<noteq> KEY_RELEASE)"
  shows "sub_keyboard_event s ev = Inr (True, s\<lparr>event_flag := False\<rparr>)"
  using assms by (auto simp: sub_keyboard_event_def Let_def press_enter_def)

lemma py_is_False_iff: "py_is_False v \<longleftrightarrow> v = PyBool False"
  by (cases v) auto

lemma press_enter_event:
  assumes "4 \<le> length (base_command s)"
  shows "sub_keyboard_event s (press ''ENTER'') =
     Inr (True,
       if enter_toggled s = PyBool False
       then s\<lparr>enter_toggled := PyBool True,
              base_command := (base_command s)[3 := (if py_eq_zero (base_command s ! 3) then PyInt 1 else PyInt 0)],
              event_flag := True\<rparr>
       else s\<lparr>event_flag := False\<rparr>)"
  using assms
  by (simp add: sub_keyboard_event_def Let_def enter_not_mapped press_enter_def py_is_False_iff)

lemma release_enter_event:
  "sub_keyboard_event s (release ''ENTER'') =
     Inr (True, s\<lparr>enter_toggled := PyBool False, event_flag := False\<rparr>)"
  by (simp add: sub_keyboard_event_def Let_def enter_not_mapped)

lemma event_total:
  assumes "3 \<le> length (base_command s)" "4 \<le> length (base_command s) \<or> \<not> (ev_type ev = KEY_PRESS \<and> input_name ev = ''ENTER'')"
  shows "\<exists>s'. sub_keyboard_event s ev = Inr (True, s')"
proof (cases "map_of input_keyboard_mapping (input_name ev)")
  case None
  then show ?thesis using assms
    by (auto simp: sub_keyboard_event_def Let_def press_enter_def)
next
  case (Some v)
  then have l: "length v = 3" by (rule mapping_vector_length)
  from Some have k: "input_name ev \<noteq> ''ENTER''" using enter_not_mapped by auto
  show ?thesis using assms Some k
    by (auto simp: sub_keyboard_event_def Let_def slice3_update_ok [OF _ l] press_enter_def)
qed


lemma roundtrip_list:
  assumes "list_all2 exact_press xs v"
  shows "map PyFloat (map2 fl_sub (map as_float (map PyFloat (map2 fl_add (map as_float xs) v))) v) = xs"
  using assms
proof (induction xs v rule: list_all2_induct)
  case Nil
  then show ?case by simp
next
  case (Cons x xs y ys)
  from Cons.hyps(1) obtain a where a: "x = PyFloat a" "fl_canonical a" "fl_exact_add a y"
    by (cases x) auto
  have "fl_sub (fl_add a y) y = a" using a(2,3) by (rule fl_add_sub_exact)
  then show ?case using Cons.IH by (simp add: a(1))
qed

lemma event_frame:
  assumes "4 \<le> length (base_command s)"
    and "\<not> (ev_type ev = KEY_PRESS \<and> input_name ev = ''ENTER'')"
  shows "\<exists>s'. sub_keyboard_event s ev = Inr (True, s') \<and>
           length (base_command s') = length (base_command s) \<and>
           base_command s' ! 3 = base_command s ! 3 \<and>
           path_follow s' = path_follow s \<and>
           (enter_toggled s' = enter_toggled s \<or>
              ev_type ev = KEY_RELEASE \<and> input_name ev = ''ENTER'' \<and> enter_toggled s' = PyBool False)"
proof (cases "map_of input_keyboard_mapping (input_name ev)")
  case None
  then show ?thesis using assms
    by (auto simp: sub_keyboard_event_def Let_def press_enter_def)
next
  case (Some v)
  then have l: "length v = 3" by (rule mapping_vector_length)
  from Some have k: "input_name ev \<noteq> ''ENTER''" using enter_not_mapped by auto
  have n: "(xs @ drop 3 (base_command s)) ! 3 = base_command s ! 3" if "length xs = 3" for xs :: "pyval list"
    using that assms(1) by (simp add: nth_append)
  show ?thesis using assms Some k l
    by (auto simp: sub_keyboard_event_def Let_def slice3_update_ok [OF _ l] press_enter_def n)
qed


lemma callbacks_invariant:
  assumes "length (base_command s) = 4"
    and "base_command s ! 3 = PyInt 0 \<or> base_command s ! 3 = PyInt 1"
    and "path_follow s \<noteq> None"
  shows "\<exists>s'. run_callbacks s cbs = Inr s' \<and> length (base_command s') = 4 \<and>
           (base_command s' ! 3 = PyInt 0 \<or> base_command s' ! 3 = PyInt 1)"
  using assms
proof (induction cbs arbitrary: s)
  case Nil
  then show ?case by simp
next
  case (Cons cb cbs)
  show ?case
  proof (cases cb)
    case (Keyboard ev)
    have "\<exists>s1. sub_keyboard_event s ev = Inr (True, s1) \<and> length (base_command s1) = 4 \<and>
             (base_command s1 ! 3 = PyInt 0 \<or> base_command s1 ! 3 = PyInt 1) \<and> path_follow s1 \<noteq> None"
    proof (cases "ev_type ev = KEY_PRESS \<and> input_name ev = ''ENTER''")
      case True
      then have ev: "ev = press ''ENTER''" by (cases ev) simp
      have l: "4 \<le> length (base_command s)" using Cons.prems(1) by simp
      show ?thesis using Cons.prems
        by (auto simp: ev press_enter_event [OF l])
    next
      case False
      have l: "4 \<le> length (base_command s)" using Cons.prems(1) by simp
      from event_frame [OF l False] Cons.prems show ?thesis by auto
    qed
    then obtain s1 where s1: "sub_keyboard_event s ev = Inr (True, s1)"
      and i1: "length (base_command s1) = 4"
        "base_command s1 ! 3 = PyInt 0 \<or> base_command s1 ! 3 = PyInt 1" "path_follow s1 \<noteq> None"
      by blast
    from Cons.IH [OF i1] show ?thesis by (simp add: Keyboard s1)
  next
    case (Physics dt)
    from Cons.prems(3) obtain pf where pf: "path_follow s = Some pf" by auto
    define s1 where "s1 = (if event_flag s then s\<lparr>event_flag := False\<rparr> else s)"
    have st: "\<exists>calls. on_physics_step s dt = Inr (calls, s1)"
      using pf by (simp add: on_physics_step_def Let_def s1_def)
    have i1: "length (base_command s1) = 4"
        "base_command s1 ! 3 = PyInt 0 \<or> base_command s1 ! 3 = PyInt 1" "path_follow s1 \<noteq> None"
      using Cons.prems by (auto simp: s1_def)
    from Cons.IH [OF i1] st show ?thesis by (auto simp: Physics)
  qed
qed


lemma untoggled_invariant:
  assumes "length (base_command s) = 4" "base_command s ! 3 = PyInt 0" "enter_toggled s = PyInt 0"
    and "release ''ENTER'' \<notin> set evs"
  shows "\<exists>s'. run_events s evs = Inr s' \<and> length (base_command s') = 4 \<and>
           base_command s' ! 3 = PyInt 0 \<and> enter_toggled s' = PyInt 0"
  using assms
proof (induction evs arbitrary: s)
  case Nil
  then show ?case by simp
next
  case (Cons ev evs)
  have l: "4 \<le> length (base_command s)" using Cons.prems(1) by simp
  have "\<exists>s1. sub_keyboard_event s ev = Inr (True, s1) \<and> length (base_command s1) = 4 \<and>
           base_command s1 ! 3 = PyInt 0 \<and> enter_toggled s1 = PyInt 0"
  proof (cases "ev_type ev = KEY_PRESS \<and> input_name ev = ''ENTER''")
    case True
    then have ev: "ev = press ''ENTER''" by (cases ev) simp
    show ?thesis using Cons.prems by (auto simp: ev press_enter_event [OF l])
  next
    case False
    have "\<not> (ev_type ev = KEY_RELEASE \<and> input_name ev = ''ENTER'')"
      using Cons.prems(4) by (cases ev) auto
    with event_frame [OF l False] Cons.prems show ?thesis by auto
  qed
  then obtain s1 where s1: "sub_keyboard_event s ev = Inr (True, s1)"
    and i1: "length (base_command s1) = 4" "base_command s1 ! 3 = PyInt 0" "enter_toggled s1 = PyInt 0"
    by blast
  have "release ''ENTER'' \<notin> set evs" using Cons.prems(4) by simp
  from Cons.IH [OF i1 this] show ?case by (simp add: s1)
qed


lemma event_sets_flag:
  assumes "4 \<le> length (base_command s)"
  shows "\<exists>s1. sub_keyboard_event s ev = Inr (True, s1) \<and>
           path_follow s1 = path_follow s \<and>
           length (base_command s1) = length (base_command s) \<and>
           (event_flag s1 \<longleftrightarrow>
              (ev_type ev = KEY_PRESS \<or> ev_type ev = KEY_RELEASE) \<and>
                input_name ev \<in> set (map fst input_keyboard_mapping) \<or>
              ev_type ev = KEY_PRESS \<and> input_name ev = ''ENTER'' \<and>
                enter_toggled s = PyBool False)"
proof (cases "map_of input_keyboard_mapping (input_name ev)")
  case None
  then have "input_name ev \<notin> set (map fst input_keyboard_mapping)"
    by (simp add: map_of_eq_None_iff)
  then show ?thesis using assms None
    by (auto simp: sub_keyboard_event_def Let_def press_enter_def py_is_False_iff)
next
  case (Some v)
  then have l: "length v = 3" by (rule mapping_vector_length)
  from Some have k: "input_name ev \<noteq> ''ENTER''" using enter_not_mapped by auto
  from Some have m: "input_name ev \<in> set (map fst input_keyboard_mapping)"
    by (auto dest: map_of_SomeD intro: rev_image_eqI)
  show ?thesis using assms Some k l m
    by (auto simp: sub_keyboard_event_def Let_def slice3_update_ok [OF _ l] press_enter_def
             simp del: set_map)
qed

lemma physics_step_switch:
  assumes "path_follow s = Some pf"
  shows "on_physics_step s dt =
           Inr ((if event_flag s then [SwitchMode] else []) @ [Advance dt (base_command s) pf],
                s\<lparr>event_flag := False\<rparr>)"
  using assms by (cases "event_flag s") (simp_all add: on_physics_step_def Let_def)


section \<open>Properties of the waypoint loading\<close>

lemma append_waypoints_records:
  assumes "list_all is_waypoint_record ds"
  shows "append_waypoints acc (map JDict ds) =
           Inr (acc @ map (\<lambda>d. NdArray [the (map_of d ''x''), the (map_of d ''y''), the (map_of d ''rad'')]) ds)"
  using assms
proof (induction ds arbitrary: acc)
  case Nil
  then show ?case by simp
next
  case (Cons d ds)
  from Cons.prems obtain x y r where
    d: "map_of d ''x'' = Some x" "map_of d ''y'' = Some y" "map_of d ''rad'' = Some r"
    by (auto simp: is_waypoint_record_def split: option.splits)
  have w: "waypoint_array (JDict d) = Inr (NdArray [x, y, r])"
    by (simp add: waypoint_array_def d)
  have "list_all is_waypoint_record ds"
    using Cons.prems by simp
  from Cons.IH [OF this, of "acc @ [NdArray [x, y, r]]"] show ?case
    by (simp add: w d)
qed


section \<open>The claims\<close>

text \<open>
  C1 (as amended). For a key of the mapping and a command of at least three elements,
  KEY\_PRESS stores in elements 0..2 the float64 sums of these elements and the key's vector,
  and KEY\_RELEASE the float64 differences; the other elements stay as they are. A press
  followed by the matching release restores the command whenever the three sums of the press
  are exact, that is, need no rounding.
\<close>

theorem press_release_commands:
  assumes "map_of input_keyboard_mapping k = Some v"
    and "3 \<le> length (base_command s)"
  shows "\<exists>s1 s2.
      sub_keyboard_event s (press k) = Inr (True, s1) \<and>
      take 3 (base_command s1) = map PyFloat (map2 fl_add (map as_float (take 3 (base_command s))) v) \<and>
      drop 3 (base_command s1) = drop 3 (base_command s) \<and>
      sub_keyboard_event s1 (release k) = Inr (True, s2) \<and>
      take 3 (base_command s2) = map PyFloat (map2 fl_sub (map as_float (take 3 (base_command s1))) v) \<and>
      drop 3 (base_command s2) = drop 3 (base_command s) \<and>
      (list_all2 exact_press (take 3 (base_command s)) v \<longrightarrow>
         base_command s2 = base_command s)"
proof -
  have l: "length v = 3" using assms(1) by (rule mapping_vector_length)
  define b1 where "b1 = map PyFloat (map2 fl_add (map as_float (take 3 (base_command s))) v)"
  define s1 where "s1 = s\<lparr>base_command := b1 @ drop 3 (base_command s), event_flag := True\<rparr>"
  have lb1: "length b1 = 3" using assms(2) l by (simp add: b1_def)
  have p: "sub_keyboard_event s (press k) = Inr (True, s1)"
    unfolding s1_def b1_def using assms by (rule press_mapped)
  have len1: "3 \<le> length (base_command s1)" using lb1 by (simp add: s1_def)
  define b2 where "b2 = map PyFloat (map2 fl_sub (map as_float (take 3 (base_command s1))) v)"
  define s2 where "s2 = s1\<lparr>base_command := b2 @ drop 3 (base_command s1), event_flag := True\<rparr>"
  have lb2: "length b2 = 3" using len1 l by (simp add: b2_def)
  have r: "sub_keyboard_event s1 (release k) = Inr (True, s2)"
    unfolding s2_def b2_def using assms(1) len1 by (rule release_mapped)
  have t1: "take 3 (base_command s1) = b1" and d1: "drop 3 (base_command s1) = drop 3 (base_command s)"
    using lb1 by (simp_all add: s1_def)
  have t2: "take 3 (base_command s2) = b2" and d2: "drop 3 (base_command s2) = drop 3 (base_command s)"
    using lb2 d1 by (simp_all add: s2_def)
  have rt: "base_command s2 = base_command s" if ex: "list_all2 exact_press (take 3 (base_command s)) v"
  proof -
    have "b2 = take 3 (base_command s)"
      unfolding b2_def t1 b1_def using ex by (rule roundtrip_list)
    then have "take 3 (base_command s2) @ drop 3 (base_command s2) = take 3 (base_command s) @ drop 3 (base_command s)"
      by (simp only: t2 d2)
    then show ?thesis by (simp only: append_take_drop_id)
  qed
  have T1: "take 3 (base_command s1) = map PyFloat (map2 fl_add (map as_float (take 3 (base_command s))) v)"
    using t1 by (simp only: b1_def)
  have T2: "take 3 (base_command s2) = map PyFloat (map2 fl_sub (map as_float (take 3 (base_command s1))) v)"
    using t2 by (simp only: b2_def)
  show ?thesis
    by (rule exI [of _ s1], rule exI [of _ s2], intro conjI impI)
       (fact p T1 d1 r T2 d2 rt)+
qed

theorem press_release_commands_witness:
  "(\<exists>s1 s2.
      sub_keyboard_event Go1Runner_init (press ''UP'') = Inr (True, s1) \<and>
      take 3 (base_command s1) = [PyFloat f1_8, PyFloat f0_0, PyFloat f0_0] \<and>
      sub_keyboard_event s1 (release ''UP'') = Inr (True, s2) \<and>
      base_command s2 = base_command Go1Runner_init) \<and>
   (\<exists>s1 s2.
      sub_keyboard_event
        (Go1Runner_init\<lparr>base_command := [PyFloat f1_8, PyFloat f0_0, PyFloat f0_0, PyInt 0]\<rparr>)
        (press ''NUMPAD_8'') = Inr (True, s1) \<and>
      take 3 (base_command s1) = [PyFloat (Fl 8106479329266893 (- 51)), PyFloat f0_0, PyFloat f0_0] \<and>
      sub_keyboard_event s1 (release ''NUMPAD_8'') = Inr (True, s2) \<and>
      base_command s2 = [PyFloat f1_8, PyFloat f0_0, PyFloat f0_0, PyInt 0])"
proof -
  let ?held = "Go1Runner_init\<lparr>base_command := [PyFloat f1_8, PyFloat f0_0, PyFloat f0_0, PyInt 0]\<rparr>"
  have k: "map_of input_keyboard_mapping ''UP'' = Some [f1_8, f0_0, f0_0]"
    and k8: "map_of input_keyboard_mapping ''NUMPAD_8'' = Some [f1_8, f0_0, f0_0]"
    by (simp_all add: input_keyboard_mapping_def)
  have l: "3 \<le> length (base_command Go1Runner_init)"
    and l8: "3 \<le> length (base_command ?held)"
    by (simp_all add: Go1Runner_init_def)
  have a: "fl_add f0_0 f1_8 = f1_8" "fl_add f0_0 f0_0 = f0_0"
    "fl_add f1_8 f1_8 = Fl 8106479329266893 (- 51)"
    by code_simp+
  have e0: "fl_canonical f0_0" "fl_canonical f1_8"
    by code_simp+
  have e1: "fl_exact_add f0_0 f1_8" "fl_exact_add f0_0 f0_0" "fl_exact_add f1_8 f1_8"
    by (simp_all add: fl_exact_add_def a) (simp_all add: f0_0_def f1_8_def power_int_minus)
  have ex: "list_all2 exact_press (take 3 (base_command Go1Runner_init)) [f1_8, f0_0, f0_0]"
    using e0 e1 by (simp add: Go1Runner_init_def)
  have ex8: "list_all2 exact_press (take 3 (base_command ?held)) [f1_8, f0_0, f0_0]"
    using e0 e1 by simp
  from press_release_commands [OF k l] ex a
  have first: "\<exists>s1 s2.
      sub_keyboard_event Go1Runner_init (press ''UP'') = Inr (True, s1) \<and>
      take 3 (base_command s1) = [PyFloat f1_8, PyFloat f0_0, PyFloat f0_0] \<and>
      sub_keyboard_event s1 (release ''UP'') = Inr (True, s2) \<and>
      base_command s2 = base_command Go1Runner_init"
    by (auto simp: Go1Runner_init_def)
  from press_release_commands [OF k8 l8] ex8 a
  have second: "\<exists>s1 s2.
      sub_keyboard_event ?held (press ''NUMPAD_8'') = Inr (True, s1) \<and>
      take 3 (base_command s1) = [PyFloat (Fl 8106479329266893 (- 51)), PyFloat f0_0, PyFloat f0_0] \<and>
      sub_keyboard_event s1 (release ''NUMPAD_8'') = Inr (True, s2) \<and>
      base_command s2 = [PyFloat f1_8, PyFloat f0_0, PyFloat f0_0, PyInt 0]"
    by auto
  from first second show ?thesis by (rule conjI)
qed

text \<open>
  With forward velocity \<open>3.6\<close> (UP and NUMPAD\_8 held), a further press of UP gives
  \<open>5.4\<close>, and its release \<open>3.6000000000000005\<close>: the claim as stated fails there.
\<close>

theorem press_release_roundtrip_counterexample:
  "run_events Go1Runner_init [press ''UP'', press ''NUMPAD_8''] =
     Inr (Go1Runner_init\<lparr>base_command :=
            [PyFloat (Fl 8106479329266893 (- 51)), PyFloat (Fl 0 0), PyFloat (Fl 0 0), PyInt 0],
          event_flag := True\<rparr>) \<and>
   run_events Go1Runner_init [press ''UP'', press ''NUMPAD_8'', press ''UP'', release ''UP''] =
     Inr (Go1Runner_init\<lparr>base_command :=
            [PyFloat (Fl 4053239664633447 (- 50)), PyFloat (Fl 0 0), PyFloat (Fl 0 0), PyInt 0],
          event_flag := True\<rparr>) \<and>
   fl_val (Fl 4053239664633447 (- 50)) \<noteq> fl_val (Fl 8106479329266893 (- 51))"
  by code_simp

text \<open>
  C2. Once \<open>setup\<close> has set the path-follow flag, a physics step calls the robot's
  \<open>advance\<close> exactly once, with the step size, the current base command and the
  path-follow flag; the step leaves the base command as it is.
\<close>
theorem physics_step_advances_once:
  assumes "path_follow s = Some pf"
  shows "\<exists>calls s'. on_physics_step s step_size = Inr (calls, s') \<and>
           filter (\<lambda>c. c \<noteq> SwitchMode) calls = [Advance step_size (base_command s) pf] \<and>
           base_command s' = base_command s \<and> path_follow s' = Some pf"
  using assms by (simp add: on_physics_step_def Let_def)

theorem physics_step_advances_once_witness:
  "\<exists>calls s'. on_physics_step (Go1Runner_setup Go1Runner_init (None :: unit option)) f1_0 = Inr (calls, s') \<and>
           filter (\<lambda>c. c \<noteq> SwitchMode) calls = [Advance f1_0 (base_command Go1Runner_init) False]"
proof -
  have "path_follow (Go1Runner_setup Go1Runner_init (None :: unit option)) = Some False"
    by (simp add: Go1Runner_setup_def)
  from physics_step_advances_once [OF this, of f1_0] show ?thesis
    by (auto simp: Go1Runner_setup_def)
qed



text \<open>
  C4. The base command has four elements after construction, and after every sequence of
  keyboard events and physics steps that follows \<open>setup\<close> it still has four elements,
  the fourth being 0 or 1.
\<close>
theorem base_command_shape:
  "base_command Go1Runner_init = [PyFloat f0_0, PyFloat f0_0, PyFloat f0_0, PyInt 0] \<and>
   (\<exists>s. run_callbacks (Go1Runner_setup Go1Runner_init way_points) cbs = Inr s \<and>
        length (base_command s) = 4 \<and>
        (base_command s ! 3 = PyInt 0 \<or> base_command s ! 3 = PyInt 1))"
proof -
  let ?s = "Go1Runner_setup Go1Runner_init way_points"
  have "length (base_command ?s) = 4" "base_command ?s ! 3 = PyInt 0 \<or> base_command ?s ! 3 = PyInt 1"
    "path_follow ?s \<noteq> None"
    by (auto simp: Go1Runner_setup_def Go1Runner_init_def)
  from callbacks_invariant [OF this] show ?thesis by (simp add: Go1Runner_init_def)
qed

text \<open>
  C8. \<open>__init__\<close> sets \<open>_enter_toggled\<close> to the integer 0, which is not \<open>False\<close>: the
  first ENTER KEY\_PRESS after construction changes nothing, and as long as no ENTER
  KEY\_RELEASE has arrived the fourth element stays 0 whatever the events are. After an
  ENTER release, an ENTER press sets it to 1.
\<close>
theorem first_enter_press_ignored:
  assumes "release ''ENTER'' \<notin> set evs"
  shows "sub_keyboard_event Go1Runner_init (press ''ENTER'') = Inr (True, Go1Runner_init) \<and>
         (\<exists>s. run_events Go1Runner_init evs = Inr s \<and>
              base_command s ! 3 = PyInt 0 \<and> enter_toggled s = PyInt 0) \<and>
         (\<exists>s. run_events Go1Runner_init [release ''ENTER'', press ''ENTER''] = Inr s \<and>
              base_command s ! 3 = PyInt 1 \<and> enter_toggled s = PyBool True)"
proof -
  have l: "4 \<le> length (base_command Go1Runner_init)" by (simp add: Go1Runner_init_def)
  have a: "sub_keyboard_event Go1Runner_init (press ''ENTER'') = Inr (True, Go1Runner_init)"
    using press_enter_event [OF l] by (simp add: Go1Runner_init_def)
  have b: "\<exists>s. run_events Go1Runner_init evs = Inr s \<and>
              base_command s ! 3 = PyInt 0 \<and> enter_toggled s = PyInt 0"
    using untoggled_invariant [of Go1Runner_init evs] assms by (auto simp: Go1Runner_init_def)
  define r where "r = Go1Runner_init\<lparr>enter_toggled := PyBool False, event_flag := False\<rparr>"
  have lr: "4 \<le> length (base_command r)" by (simp add: r_def Go1Runner_init_def)
  have c: "\<exists>s. run_events Go1Runner_init [release ''ENTER'', press ''ENTER''] = Inr s \<and>
              base_command s ! 3 = PyInt 1 \<and> enter_toggled s = PyBool True"
    using press_enter_event [OF lr]
    by (simp add: release_enter_event flip: r_def) (simp add: r_def Go1Runner_init_def)
  from a b c show ?thesis by blast
qed

theorem first_enter_press_ignored_witness:
  "\<exists>s. run_events Go1Runner_init [press ''ENTER'', press ''UP'', press ''ENTER'', release ''UP''] = Inr s \<and>
       base_command s ! 3 = PyInt 0 \<and> enter_toggled s = PyInt 0"
proof -
  have "release ''ENTER'' \<notin> set [press ''ENTER'', press ''UP'', press ''ENTER'', release ''UP'']"
    by simp
  from first_enter_press_ignored [OF this] show ?thesis by blast
qed

text \<open>
  C10. An event whose key is neither in the mapping nor ENTER, or whose type is neither
  KEY\_PRESS nor KEY\_RELEASE, changes nothing but \<open>_event_flag\<close>, which it resets; and the
  callback returns \<open>True\<close> for every event (on a command of at least four elements).
\<close>
theorem unmapped_event_frame:
  "((input_name ev \<notin> set (map fst input_keyboard_mapping) \<and> input_name ev \<noteq> ''ENTER'') \<or>
    (ev_type ev \<noteq> KEY_PRESS \<and> ev_type ev \<noteq> KEY_RELEASE) \<longrightarrow>
      sub_keyboard_event s ev = Inr (True, s\<lparr>event_flag := False\<rparr>)) \<and>
   (4 \<le> length (base_command s) \<longrightarrow> (\<exists>s'. sub_keyboard_event s ev' = Inr (True, s')))"
proof -
  have m: "map_of input_keyboard_mapping (input_name ev) = None"
    if "input_name ev \<notin> set (map fst input_keyboard_mapping)"
    using that by (simp add: map_of_eq_None_iff)
  show ?thesis using unmapped_event [of ev s] event_total [of s ev'] m by auto
qed

theorem unmapped_event_frame_witness:
  "sub_keyboard_event Go1Runner_init (press ''A'') = Inr (True, Go1Runner_init) \<and>
   sub_keyboard_event Go1Runner_init \<lparr>ev_type = KEY_REPEAT, input_name = ''UP''\<rparr> = Inr (True, Go1Runner_init) \<and>
   (\<exists>s'. sub_keyboard_event Go1Runner_init (press ''ENTER'') = Inr (True, s'))"
  using unmapped_event_frame [of "press ''A''" Go1Runner_init "press ''ENTER''"]
    unmapped_event_frame [of "\<lparr>ev_type = KEY_REPEAT, input_name = ''UP''\<rparr>" Go1Runner_init "press ''ENTER''"]
  by (simp add: input_keyboard_mapping_def Go1Runner_init_def)



text \<open>
  C6. With a waypoint file that opens and parses to a list of waypoint records, \<open>main\<close>
  builds one array \<open>[x, y, rad]\<close> for each record, in the order of the list, and passes
  the resulting list both to the constructor of the runner and to \<open>setup\<close>.
\<close>
theorem main_waypoints_in_order:
  assumes "path \<noteq> []"
    and "fs path = Inr (Inr (JList (map JDict ds)))"
    and "list_all is_waypoint_record ds"
  shows "\<exists>waypoint_pose.
           main (Some path) fs =
             ([Print path, NewGo1Runner (Some waypoint_pose), AppUpdate, Setup (Some waypoint_pose),
               WorldReset, WorldReset, Run, AppClose], None) \<and>
           waypoint_pose =
             map (\<lambda>d. NdArray [the (map_of d ''x''), the (map_of d ''y''), the (map_of d ''rad'')]) ds \<and>
           length waypoint_pose = length ds"
  using assms(1,2) append_waypoints_records [OF assms(3), of "[]"]
  by (simp add: main_def load_waypoints_def)

theorem main_waypoints_in_order_witness:
  "main (Some ''wp.json'')
     (\<lambda>p. Inr (Inr (JList [JDict [(''x'', JInt 1), (''y'', JInt 2), (''rad'', JFloat f1_0)],
                            JDict [(''rad'', JInt 0), (''y'', JInt 4), (''x'', JInt 3)]]))) =
     ([Print ''wp.json'',
       NewGo1Runner (Some [NdArray [JInt 1, JInt 2, JFloat f1_0], NdArray [JInt 3, JInt 4, JInt 0]]),
       AppUpdate,
       Setup (Some [NdArray [JInt 1, JInt 2, JFloat f1_0], NdArray [JInt 3, JInt 4, JInt 0]]),
       WorldReset, WorldReset, Run, AppClose], None)"
proof -
  let ?ds = "[[(''x'', JInt 1), (''y'', JInt 2), (''rad'', JFloat f1_0)],
              [(''rad'', JInt 0), (''y'', JInt 4), (''x'', JInt 3)]]"
  let ?fs = "\<lambda>p :: string. (Inr (Inr (JList (map JDict ?ds))) :: exc + (exc + pyjson))"
  have p: "''wp.json'' \<noteq> []" by simp
  have f: "?fs ''wp.json'' = Inr (Inr (JList (map JDict ?ds)))" by simp
  have k: "list_all is_waypoint_record ?ds"
    by (simp add: is_waypoint_record_def)
  from main_waypoints_in_order [OF p f k] show ?thesis by simp
qed

text \<open>
  C9 (as amended). A physics step calls \<open>switch_mode\<close> exactly when the event flag is set
  as the step starts, and it clears the flag. Every keyboard event first resets the flag, so
  after a keyboard event the next step switches the mode exactly when that event, the most
  recent one, was a press or release of a mapped key or an ENTER press with the gate open;
  the switch happens at most once, and the step after it does not switch.
\<close>
theorem mode_switch_after_last_event:
  assumes "4 \<le> length (base_command s)" and "path_follow s = Some pf"
  shows "(\<exists>calls s'. on_physics_step s dt = Inr (calls, s') \<and>
            (SwitchMode \<in> set calls \<longleftrightarrow> event_flag s) \<and> \<not> event_flag s') \<and>
         (\<exists>s1 calls s2.
            sub_keyboard_event s ev = Inr (True, s1) \<and>
            on_physics_step s1 dt = Inr (calls, s2) \<and>
            (SwitchMode \<in> set calls \<longleftrightarrow>
               (ev_type ev = KEY_PRESS \<or> ev_type ev = KEY_RELEASE) \<and>
                 input_name ev \<in> set (map fst input_keyboard_mapping) \<or>
               ev_type ev = KEY_PRESS \<and> input_name ev = ''ENTER'' \<and>
                 enter_toggled s = PyBool False) \<and>
            count_list calls SwitchMode \<le> 1 \<and>
            on_physics_step s2 dt' = Inr ([Advance dt' (base_command s2) pf], s2))"
proof -
  have a: "\<exists>calls s'. on_physics_step s dt = Inr (calls, s') \<and>
            (SwitchMode \<in> set calls \<longleftrightarrow> event_flag s) \<and> \<not> event_flag s'"
    by (simp add: physics_step_switch [OF assms(2)])
  from event_sets_flag [OF assms(1), of ev] obtain s1 where
    s1: "sub_keyboard_event s ev = Inr (True, s1)" and pf1: "path_follow s1 = Some pf"
    and fl: "event_flag s1 \<longleftrightarrow>
              (ev_type ev = KEY_PRESS \<or> ev_type ev = KEY_RELEASE) \<and>
                input_name ev \<in> set (map fst input_keyboard_mapping) \<or>
              ev_type ev = KEY_PRESS \<and> input_name ev = ''ENTER'' \<and>
                enter_toggled s = PyBool False"
    using assms(2) by auto
  define calls where "calls = (if event_flag s1 then [SwitchMode] else []) @ [Advance dt (base_command s1) pf]"
  define s2 where "s2 = s1\<lparr>event_flag := False\<rparr>"
  have st: "on_physics_step s1 dt = Inr (calls, s2)"
    unfolding calls_def s2_def using pf1 by (rule physics_step_switch)
  have sw: "SwitchMode \<in> set calls \<longleftrightarrow> event_flag s1" by (simp add: calls_def)
  have cnt: "count_list calls SwitchMode \<le> 1" by (simp add: calls_def)
  have pf2: "path_follow s2 = Some pf" using pf1 by (simp add: s2_def)
  have nx: "on_physics_step s2 dt' = Inr ([Advance dt' (base_command s2) pf], s2)"
    using physics_step_switch [OF pf2, of dt'] by (simp add: s2_def)
  from s1 st sw fl cnt nx have "\<exists>s1 calls s2.
            sub_keyboard_event s ev = Inr (True, s1) \<and>
            on_physics_step s1 dt = Inr (calls, s2) \<and>
            (SwitchMode \<in> set calls \<longleftrightarrow>
               (ev_type ev = KEY_PRESS \<or> ev_type ev = KEY_RELEASE) \<and>
                 input_name ev \<in> set (map fst input_keyboard_mapping) \<or>
               ev_type ev = KEY_PRESS \<and> input_name ev = ''ENTER'' \<and>
                 enter_toggled s = PyBool False) \<and>
            count_list calls SwitchMode \<le> 1 \<and>
            on_physics_step s2 dt' = Inr ([Advance dt' (base_command s2) pf], s2)"
    by blast
  with a show ?thesis by blast
qed

theorem mode_switch_after_last_event_witness:
  "\<exists>s1 calls s2.
      sub_keyboard_event (Go1Runner_setup Go1Runner_init (None :: unit option)) (press ''UP'') = Inr (True, s1) \<and>
      on_physics_step s1 f1_0 = Inr (calls, s2) \<and> SwitchMode \<in> set calls \<and>
      on_physics_step s2 f1_0 = Inr ([Advance f1_0 (base_command s2) False], s2)"
proof -
  let ?s = "Go1Runner_setup Go1Runner_init (None :: unit option)"
  have l: "4 \<le> length (base_command ?s)" and p: "path_follow ?s = Some False"
    by (simp_all add: Go1Runner_setup_def Go1Runner_init_def)
  have m: "''UP'' \<in> set (map fst input_keyboard_mapping)"
    by (simp add: input_keyboard_mapping_def)
  from mode_switch_after_last_event [OF l p, of f1_0 "press ''UP''" f1_0] m
  show ?thesis by (auto simp del: set_map)
qed

text \<open>
  A press of UP changes the command and sets the flag; the KEY\_REPEAT event that follows
  resets the flag, and the next physics step does not switch the mode.
\<close>

theorem mode_switch_lost_counterexample:
  "run_events (Go1Runner_setup Go1Runner_init (None :: unit option)) [press ''UP''] =
     Inr \<lparr>enter_toggled = PyInt 0,
          base_command = [PyFloat f1_8, PyFloat f0_0, PyFloat f0_0, PyInt 0],
          event_flag = True, path_follow = Some False\<rparr> \<and>
   run_events (Go1Runner_setup Go1Runner_init (None :: unit option))
       [press ''UP'', \<lparr>ev_type = KEY_REPEAT, input_name = ''UP''\<rparr>] =
     Inr \<lparr>enter_toggled = PyInt 0,
          base_command = [PyFloat f1_8, PyFloat f0_0, PyFloat f0_0, PyInt 0],
          event_flag = False, path_follow = Some False\<rparr> \<and>
   on_physics_step
       \<lparr>enter_toggled = PyInt 0,
        base_command = [PyFloat f1_8, PyFloat f0_0, PyFloat f0_0, PyInt 0],
        event_flag = False, path_follow = Some False\<rparr> f1_0 =
     Inr ([Advance f1_0 [PyFloat f1_8, PyFloat f0_0, PyFloat f0_0, PyInt 0] False],
          \<lparr>enter_toggled = PyInt 0,
           base_command = [PyFloat f1_8, PyFloat f0_0, PyFloat f0_0, PyInt 0],
           event_flag = False, path_follow = Some False\<rparr>)"
  by code_simp

text \<open>
  C7. The keyboard mapping is a constant table of 12 distinct key names. Each vector has
  three components, exactly one of them nonzero, of magnitude 1.8 (the double nearest to
  9/5) on the forward and lateral axes and 1.0 on the yaw axis. Opposite keys map to
  negated vectors, and each numpad key maps to the vector of its arrow or letter key.
\<close>
theorem keyboard_mapping_table:
  "map fst input_keyboard_mapping =
     [''NUMPAD_8'', ''UP'', ''NUMPAD_2'', ''DOWN'', ''NUMPAD_6'', ''RIGHT'',
      ''NUMPAD_4'', ''LEFT'', ''NUMPAD_7'', ''N'', ''NUMPAD_9'', ''M''] \<and>
   length input_keyboard_mapping = 12 \<and>
   distinct (map fst input_keyboard_mapping) \<and>
   list_all (\<lambda>v. length v = 3 \<and> length (filter (\<lambda>x. fl_val x \<noteq> 0) v) = 1 \<and>
                 \<bar>fl_val (v ! 0)\<bar> \<in> {0, fl_val f1_8} \<and>
                 \<bar>fl_val (v ! 1)\<bar> \<in> {0, fl_val f1_8} \<and>
                 \<bar>fl_val (v ! 2)\<bar> \<in> {0, 1})
     (map snd input_keyboard_mapping) \<and>
   fl_val f1_8 = 8106479329266893 / 2 ^ 52 \<and>
   \<bar>fl_val f1_8 - 9 / 5\<bar> \<le> 1 / 2 ^ 53 \<and>
   map_of input_keyboard_mapping ''DOWN'' = map_option (map fl_neg) (map_of input_keyboard_mapping ''UP'') \<and>
   map_of input_keyboard_mapping ''RIGHT'' = map_option (map fl_neg) (map_of input_keyboard_mapping ''LEFT'') \<and>
   map_of input_keyboard_mapping ''M'' = map_option (map fl_neg) (map_of input_keyboard_mapping ''N'') \<and>
   map_of input_keyboard_mapping ''NUMPAD_2'' = map_option (map fl_neg) (map_of input_keyboard_mapping ''NUMPAD_8'') \<and>
   map_of input_keyboard_mapping ''NUMPAD_6'' = map_option (map fl_neg) (map_of input_keyboard_mapping ''NUMPAD_4'') \<and>
   map_of input_keyboard_mapping ''NUMPAD_9'' = map_option (map fl_neg) (map_of input_keyboard_mapping ''NUMPAD_7'') \<and>
   map_of input_keyboard_mapping ''NUMPAD_8'' = map_of input_keyboard_mapping ''UP'' \<and>
   map_of input_keyboard_mapping ''NUMPAD_4'' = map_of input_keyboard_mapping ''LEFT'' \<and>
   map_of input_keyboard_mapping ''NUMPAD_7'' = map_of input_keyboard_mapping ''N'' \<and>
   map_of input_keyboard_mapping ''UP'' \<noteq> None \<and>
   map_of input_keyboard_mapping ''LEFT'' \<noteq> None \<and>
   map_of input_keyboard_mapping ''N'' \<noteq> None"
  by (simp add: input_keyboard_mapping_def f1_8_def f0_0_def f1_0_def)

end
